theory Spec2Isabelle
  imports Main "HOL-Library.Word"
begin

unbundle bit_operations_syntax

section \<open>The monitoring agent of main.c: data model\<close>

text \<open>
  A C string is modelled by the list of its bytes before the terminating NUL.
  Raw bytes (what \<open>fread\<close> puts into the buffer) may hold a NUL; \<open>c_str\<close> is
  what the \<open>str*\<close> functions see of such a buffer.
\<close>

definition c_str :: "string \<Rightarrow> string" where
  "c_str bytes = takeWhile (\<lambda>c. c \<noteq> CHR 0x00) bytes"

definition FIFO_PATH :: string where
  "FIFO_PATH = ''/tmp/monitor_fifo''"

definition BUFFER_SIZE :: nat where
  "BUFFER_SIZE = 256"

definition MAX_METRICS :: nat where
  "MAX_METRICS = 10"

definition STATUS_FILE :: string where
  "STATUS_FILE = ''/tmp/monitor_status''"

definition EXIT_FAILURE :: int where
  "EXIT_FAILURE = 1"

text \<open>
  A function pointer \<open>void (*)(void)\<close>: \<open>NULL\<close> or the address of a collector.
\<close>

datatype fn_ptr = NULL | Fn nat

text \<open>
  One entry of the table \<open>all_metrics\<close>, with the two fields main.c reads. The
  table itself is defined outside main.c; it is a parameter of every function that
  scans it. The list holds the entries before the sentinel whose name is the null
  pointer.
\<close>

record MetricInfo =
  name :: string
  update_function :: fn_ptr

datatype errno = EEXIST | EACCES | ENOENT | ENOSPC | EROFS

text \<open>What the process does that an observer outside can see, in order.\<close>

datatype event =
    Stdout string
  | Stderr string
  | Perror string
  | InitMetrics "string list"
  | PthreadCreate bool
  | AvailableMetrics "string list"
  | Update nat
  | Sleep

text \<open>
  The world the process runs in. The first group is what the environment decides (the
  results of the system calls that can fail, and the bytes a writer puts into the
  pipe); the second group is the state the process changes.
\<close>

record world =
  umask :: "16 word"
  mkfifo_fault :: "errno option"
  fopen_fifo_ok :: bool
  status_openable :: bool
  pthread_create_ok :: bool
  fifo_payload :: string
  fifo_node :: "16 word option"
  status_file :: "string option"
  open_streams :: "string list"
  exposition_running :: bool
  trace :: "event list"

text \<open>
  How a call ends: it returns, the process exits with a status, or control is inside
  the \<open>while (true)\<close> of the monitoring loop, which has no exit. For the last
  case the world is the one reached after the number of complete cycles asked for.
\<close>

datatype outcome = Returned world | Exited int world | Monitoring world

section \<open>Library calls\<close>

definition isspace :: "char \<Rightarrow> bool" where
  "isspace c = (c = CHR 0x20 \<or> c = CHR 0x09 \<or> c = CHR 0x0A \<or> c = CHR 0x0B
      \<or> c = CHR 0x0C \<or> c = CHR 0x0D)"

definition is_comma :: "char \<Rightarrow> bool" where
  "is_comma c = (c = CHR '','')"

text \<open>
  \<open>strtok\<close> with the delimiter set \<open>","\<close>: the string it scans is the one
  given on the first call and the saved rest afterwards. It skips leading commas; with
  nothing left it returns NULL (\<open>None\<close>); otherwise the token runs to the next comma,
  and the saved rest starts after that comma.
\<close>

definition strtok :: "string \<Rightarrow> (string \<times> string) option" where
  "strtok s =
     (let s1 = dropWhile is_comma s in
      if s1 = [] then None
      else Some (takeWhile (\<lambda>c. \<not> is_comma c) s1,
                 drop 1 (dropWhile (\<lambda>c. \<not> is_comma c) s1)))"

text \<open>\<open>snprintf\<close> into a buffer of \<open>n\<close> bytes keeps \<open>n - 1\<close> bytes.\<close>

definition snprintf :: "nat \<Rightarrow> string \<Rightarrow> string" where
  "snprintf n s = take (n - 1) s"

definition emit :: "event \<Rightarrow> world \<Rightarrow> world" where
  "emit e w = w\<lparr>trace := trace w @ [e]\<rparr>"

definition printf :: "string \<Rightarrow> world \<Rightarrow> world" where
  "printf s w = emit (Stdout s) w"

definition fprintf_stderr :: "string \<Rightarrow> world \<Rightarrow> world" where
  "fprintf_stderr s w = emit (Stderr s) w"

definition perror :: "string \<Rightarrow> world \<Rightarrow> world" where
  "perror s w = emit (Perror s) w"

definition sleep :: "world \<Rightarrow> world" where
  "sleep w = emit Sleep w"

text \<open>
  \<open>mkfifo(FIFO_PATH, 0666)\<close>: fails with the fault the environment imposes, or
  with \<open>EEXIST\<close> when the node is there (which it leaves as it is); otherwise it
  creates the node with the mode masked by the process's umask.
\<close>

definition mkfifo :: "world \<Rightarrow> errno option \<times> world" where
  "mkfifo w =
     (case mkfifo_fault w of
        Some e \<Rightarrow> (Some e, w)
      | None \<Rightarrow>
          (case fifo_node w of
             Some m \<Rightarrow> (Some EEXIST, w)
           | None \<Rightarrow> (None, w\<lparr>fifo_node := Some (0x1B6 AND NOT (umask w))\<rparr>)))"

text \<open>\<open>fopen(FIFO_PATH, "r")\<close>: the boolean says whether a stream was returned.\<close>

definition fopen_fifo :: "world \<Rightarrow> bool \<times> world" where
  "fopen_fifo w =
     (if fopen_fifo_ok w \<and> fifo_node w \<noteq> None
      then (True, w\<lparr>open_streams := FIFO_PATH # open_streams w\<rparr>)
      else (False, w))"

text \<open>\<open>fread(buffer, 1, n, fifo_file)\<close>: the bytes read, at most \<open>n\<close>.\<close>

definition fread :: "nat \<Rightarrow> world \<Rightarrow> string \<times> world" where
  "fread n w = (take n (fifo_payload w), w\<lparr>fifo_payload := drop n (fifo_payload w)\<rparr>)"

definition fclose :: "string \<Rightarrow> world \<Rightarrow> world" where
  "fclose path w = w\<lparr>open_streams := remove1 path (open_streams w)\<rparr>"

definition unlink_fifo :: "world \<Rightarrow> world" where
  "unlink_fifo w = w\<lparr>fifo_node := None\<rparr>"

text \<open>
  \<open>%zu\<close> of an index.
\<close>

definition digit_char :: "nat \<Rightarrow> char" where
  "digit_char d = char_of (48 + d)"

function decimal :: "nat \<Rightarrow> string" where
  "decimal n = (if n < 10 then [digit_char n] else decimal (n div 10) @ [digit_char (n mod 10)])"
  by pat_completeness auto
termination
  by (relation "measure (\<lambda>n. n)") auto

text \<open>
  Modelled from the spec: \<open>init_metrics\<close> and \<open>show_available_metrics\<close> are
  declared in metrics.h, which is not among the sources. The spec calls the first the
  initialisation of the registry and says of the second that it prints the full list
  of registered metric names to standard output. Each is one event here.
\<close>

definition init_metrics :: "string list \<Rightarrow> world \<Rightarrow> world" where
  "init_metrics selected_metrics w = emit (InitMetrics selected_metrics) w"

definition show_available_metrics :: "MetricInfo list \<Rightarrow> world \<Rightarrow> world" where
  "show_available_metrics all_metrics w = emit (AvailableMetrics (map name all_metrics)) w"

section \<open>The functions of main.c\<close>

subsection \<open>trim_whitespace\<close>

text \<open>
  The second loop of \<open>trim_whitespace\<close>: \<open>end\<close> is an index into \<open>str\<close>,
  moved down while it is above the start and on a whitespace byte.
\<close>

fun trim_end :: "string \<Rightarrow> nat \<Rightarrow> nat" where
  "trim_end str 0 = 0"
| "trim_end str (Suc e) = (if isspace (str ! Suc e) then trim_end str e else Suc e)"

definition trim_whitespace :: "string \<Rightarrow> string" where
  "trim_whitespace s =
     (let str = dropWhile isspace s in
      if str = [] then str
      else take (Suc (trim_end str (length str - 1))) str)"

subsection \<open>update_status\<close>

text \<open>
  \<open>fopen(STATUS_FILE, "w")\<close> empties the file when it succeeds; \<open>fprintf\<close>
  on that stream appends to what the file holds.
\<close>

definition fopen_status :: "world \<Rightarrow> bool \<times> world" where
  "fopen_status w =
     (if status_openable w
      then (True, w\<lparr>status_file := Some [], open_streams := STATUS_FILE # open_streams w\<rparr>)
      else (False, w))"

definition fprintf_status :: "string \<Rightarrow> world \<Rightarrow> world" where
  "fprintf_status s w =
     w\<lparr>status_file := Some ((case status_file w of None \<Rightarrow> [] | Some old \<Rightarrow> old) @ s)\<rparr>"

definition update_status :: "string \<Rightarrow> world \<Rightarrow> world" where
  "update_status status w =
     (case fopen_status w of
        (False, w1) \<Rightarrow> perror ''fopen'' w1
      | (True, w1) \<Rightarrow> fclose STATUS_FILE (fprintf_status (status @ [CHR 0x0A]) w1))"

subsection \<open>create_threads\<close>

text \<open>
  The function is \<open>void\<close>: its \<open>return EXIT_FAILURE\<close> hands nothing to the caller,
  which goes on after the call in both cases.
\<close>

definition create_threads :: "world \<Rightarrow> world" where
  "create_threads w =
     (if pthread_create_ok w
      then (emit (PthreadCreate True) w)\<lparr>exposition_running := True\<rparr>
      else update_status ''Error creating HTTP server thread''
             (fprintf_stderr (''Error creating HTTP server thread'' @ [CHR 0x0A])
                (emit (PthreadCreate False) w)))"

subsection \<open>start_metrics_monitoring\<close>

text \<open>The inner \<open>for\<close>: the first entry of the table with that name decides.\<close>

fun lookup_metric :: "MetricInfo list \<Rightarrow> string \<Rightarrow> fn_ptr" where
  "lookup_metric [] metric_name = NULL"
| "lookup_metric (info # rest) metric_name =
     (if metric_name = name info then update_function info
      else lookup_metric rest metric_name)"

definition processing_line :: "string \<Rightarrow> string" where
  "processing_line metric_name =
     ''Processing metric: '' @ [CHR 0x27] @ metric_name @ [CHR 0x27, CHR 0x0A]"

definition no_update_function :: "string \<Rightarrow> string" where
  "no_update_function metric_name =
     ''Error: No update function found for metric '' @ [CHR 0x27] @ metric_name @ [CHR 0x27]"

text \<open>
  The outer \<open>for\<close>: it fills \<open>update_functions\<close> from the left and stops at the
  first name whose slot stays \<open>NULL\<close>, handing that name back.
\<close>

fun resolve_metrics ::
  "MetricInfo list \<Rightarrow> string list \<Rightarrow> fn_ptr list \<Rightarrow> world \<Rightarrow> (string + fn_ptr list) \<times> world" where
  "resolve_metrics all_metrics [] update_functions w = (Inr update_functions, w)"
| "resolve_metrics all_metrics (metric_name # rest) update_functions w =
     (let w1 = printf (processing_line metric_name) w;
          f = lookup_metric all_metrics metric_name
      in if f = NULL then (Inl metric_name, w1)
         else resolve_metrics all_metrics rest (update_functions @ [f]) w1)"

text \<open>One pass of the \<open>for\<close> inside the \<open>while\<close>, from index \<open>i\<close>.\<close>

fun run_updates :: "fn_ptr list \<Rightarrow> nat \<Rightarrow> world \<Rightarrow> world" where
  "run_updates [] i w = w"
| "run_updates (f # fs) i w =
     run_updates fs (Suc i)
       (case f of
          Fn a \<Rightarrow> emit (Update a) w
        | NULL \<Rightarrow> fprintf_stderr
            (''Error: update_functions['' @ decimal i @ ''] is NULL'' @ [CHR 0x0A]) w)"

fun monitoring_loop :: "nat \<Rightarrow> fn_ptr list \<Rightarrow> world \<Rightarrow> world" where
  "monitoring_loop 0 update_functions w = w"
| "monitoring_loop (Suc cycles) update_functions w =
     monitoring_loop cycles update_functions (sleep (run_updates update_functions 0 w))"

definition start_metrics_monitoring ::
  "MetricInfo list \<Rightarrow> string list \<Rightarrow> nat \<Rightarrow> world \<Rightarrow> outcome" where
  "start_metrics_monitoring all_metrics selected_metrics cycles w =
     (let w1 = init_metrics selected_metrics w;
          w2 = create_threads w1
      in case resolve_metrics all_metrics selected_metrics [] w2 of
           (Inl metric_name, w3) \<Rightarrow>
             let status_message = snprintf BUFFER_SIZE (no_update_function metric_name);
                 w4 = update_status status_message w3;
                 w5 = fprintf_stderr (status_message @ [CHR 0x0A]) w4;
                 w6 = fprintf_stderr (no_update_function metric_name @ [CHR 0x0A]) w5
             in Returned w6
         | (Inr update_functions, w3) \<Rightarrow>
             Monitoring (monitoring_loop cycles update_functions
                           (update_status ''Metrics monitoring started'' w3)))"

subsection \<open>parse_metrics\<close>

text \<open>
  The \<open>while\<close> of \<open>parse_metrics\<close>: \<open>token\<close> is the last result of
  \<open>strtok\<close>, \<open>output\<close> the entries written so far, \<open>count\<close> their number.
\<close>

function parse_loop :: "(string \<times> string) option \<Rightarrow> string list \<Rightarrow> nat \<Rightarrow> string list" where
  "parse_loop None output max_metrics = output"
| "parse_loop (Some (token, rest)) output max_metrics =
     (if length output < max_metrics
      then parse_loop (strtok rest) (output @ [trim_whitespace token]) max_metrics
      else output)"
  by pat_completeness auto
termination
  by (relation "measure (\<lambda>(token, output, max_metrics). max_metrics - length output)") auto

definition parse_metrics :: "string \<Rightarrow> nat \<Rightarrow> string list" where
  "parse_metrics input max_metrics = parse_loop (strtok input) [] max_metrics"

subsection \<open>start_monitoring_from_fifo\<close>

definition start_monitoring_from_fifo :: "MetricInfo list \<Rightarrow> nat \<Rightarrow> world \<Rightarrow> outcome" where
  "start_monitoring_from_fifo all_metrics cycles w =
     (case mkfifo w of
        (r, w1) \<Rightarrow>
          if r \<noteq> None \<and> r \<noteq> Some EEXIST then Exited EXIT_FAILURE (perror ''mkfifo'' w1)
          else
            (case fopen_fifo w1 of
               (False, w2) \<Rightarrow> Exited EXIT_FAILURE (perror ''fopen'' w2)
             | (True, w2) \<Rightarrow>
                 (case fread (BUFFER_SIZE - 1) w2 of
                    (buffer, w3) \<Rightarrow>
                      if length buffer > 0 then
                        (let selected_metrics = parse_metrics (c_str buffer) MAX_METRICS in
                         if selected_metrics \<noteq> [] \<and> hd selected_metrics = ''1''
                         then Returned (unlink_fifo (fclose FIFO_PATH
                                (show_available_metrics all_metrics w3)))
                         else if selected_metrics \<noteq> [] then
                           (case start_metrics_monitoring all_metrics selected_metrics cycles w3 of
                              Returned w4 \<Rightarrow> Returned (unlink_fifo (fclose FIFO_PATH w4))
                            | Exited c w4 \<Rightarrow> Exited c w4
                            | Monitoring w4 \<Rightarrow> Monitoring w4)
                         else Returned (unlink_fifo (fclose FIFO_PATH w3)))
                      else Returned (unlink_fifo (fclose FIFO_PATH (perror ''fread'' w3))))))"

section \<open>The spec's words, for comparison\<close>

text \<open>
  The segments of a comma-separated payload: what stands between the commas, empty
  segments included. (The recursive call never yields the empty list, so the first
  branch of the \<open>case\<close> is never taken.)
\<close>

fun split_commas :: "string \<Rightarrow> string list" where
  "split_commas [] = [[]]"
| "split_commas (c # cs) =
     (if is_comma c then [] # split_commas cs
      else (case split_commas cs of
              [] \<Rightarrow> [[c]]
            | seg # segs \<Rightarrow> (c # seg) # segs))"

text \<open>Removing leading and trailing whitespace, as the spec says it.\<close>

definition strip :: "string \<Rightarrow> string" where
  "strip s = rev (dropWhile isspace (rev (dropWhile isspace s)))"

text \<open>A payload is well formed when no segment is empty.\<close>

definition well_formed :: "string \<Rightarrow> bool" where
  "well_formed payload = list_all (\<lambda>seg. seg \<noteq> []) (split_commas payload)"

text \<open>The tokens of a payload are its segments that are not empty.\<close>

definition payload_tokens :: "string \<Rightarrow> string list" where
  "payload_tokens payload = filter (\<lambda>seg. seg \<noteq> []) (split_commas payload)"

section \<open>Notions the statements use\<close>

text \<open>The first requested name that the table does not resolve.\<close>

definition first_unresolved :: "MetricInfo list \<Rightarrow> string list \<Rightarrow> string option" where
  "first_unresolved all_metrics selected_metrics =
     find (\<lambda>m. lookup_metric all_metrics m = NULL) selected_metrics"

text \<open>What one pass over a dispatch table adds to the trace, from index \<open>i\<close>.\<close>

fun cycle_events :: "fn_ptr list \<Rightarrow> nat \<Rightarrow> event list" where
  "cycle_events [] i = []"
| "cycle_events (f # fs) i =
     (case f of
        Fn a \<Rightarrow> Update a
      | NULL \<Rightarrow> Stderr (''Error: update_functions['' @ decimal i @ ''] is NULL'' @ [CHR 0x0A]))
     # cycle_events fs (Suc i)"

fun is_update :: "event \<Rightarrow> bool" where
  "is_update (Update a) = True"
| "is_update e = False"

text \<open>The address a non-null function pointer holds.\<close>

fun addr :: "fn_ptr \<Rightarrow> nat" where
  "addr (Fn a) = a"
| "addr NULL = 0"

text \<open>Events that are neither a callback invocation nor the sleep that ends a cycle.\<close>

fun outside_loop :: "event \<Rightarrow> bool" where
  "outside_loop (Update a) = False"
| "outside_loop Sleep = False"
| "outside_loop e = True"

fun world_of :: "outcome \<Rightarrow> world" where
  "world_of (Returned w) = w"
| "world_of (Exited c w) = w"
| "world_of (Monitoring w) = w"

text \<open>
  The channel is usable: \<open>mkfifo\<close> created the node or found it there, and
  \<open>fopen\<close> returned a stream. Then the payload gets read; \<open>after_read\<close> is
  the world at that point, and \<open>requested\<close> the names parsed from the buffer.
\<close>

definition channel_opens :: "world \<Rightarrow> bool" where
  "channel_opens w =
     (case mkfifo w of
        (r, w1) \<Rightarrow> (r = None \<or> r = Some EEXIST) \<and> fst (fopen_fifo w1))"

definition after_read :: "world \<Rightarrow> world" where
  "after_read w = snd (fread (BUFFER_SIZE - 1) (snd (fopen_fifo (snd (mkfifo w)))))"

definition requested :: "world \<Rightarrow> string list" where
  "requested w =
     parse_metrics (c_str (take (BUFFER_SIZE - 1) (fifo_payload w))) MAX_METRICS"

section \<open>A registry and a world to run the agent in\<close>

text \<open>The registry of the spec's scenarios, and the world right before the pipe is read.\<close>

definition demo_registry :: "MetricInfo list" where
  "demo_registry =
     [\<lparr>name = ''cpu'', update_function = Fn 1\<rparr>,
      \<lparr>name = ''memory'', update_function = Fn 2\<rparr>]"

definition boot_world :: "string \<Rightarrow> world" where
  "boot_world payload =
     \<lparr>umask = 0x12, mkfifo_fault = None, fopen_fifo_ok = True, status_openable = True,
      pthread_create_ok = True, fifo_payload = payload, fifo_node = None,
      status_file = Some (''Starting monitoring from FIFO'' @ [CHR 0x0A]),
      open_streams = [], exposition_running = False, trace = []\<rparr>"

section \<open>The tokeniser\<close>

lemma trim_end_eq:
  "e < length str \<Longrightarrow> \<not> isspace (str ! 0) \<Longrightarrow>
   take (Suc (trim_end str e)) str = rev (dropWhile isspace (rev (take (Suc e) str)))"
proof (induction e)
  case 0
  then show ?case by (cases str) auto
next
  case (Suc e)
  then have "take (Suc (Suc e)) str = take (Suc e) str @ [str ! Suc e]"
    by (simp add: take_Suc_conv_app_nth)
  with Suc show ?case by simp
qed

lemma trim_whitespace_strip: "trim_whitespace s = strip s"
proof (cases "dropWhile isspace s = []")
  case True
  show ?thesis by (simp only: trim_whitespace_def strip_def Let_def True) simp
next
  case False
  define str where "str = dropWhile isspace s"
  have ne: "str \<noteq> []" using False by (simp add: str_def)
  have "\<not> isspace (hd str)" using ne unfolding str_def by (rule hd_dropWhile)
  then have h0: "\<not> isspace (str ! 0)" using ne by (simp add: hd_conv_nth)
  have "take (Suc (trim_end str (length str - 1))) str
        = rev (dropWhile isspace (rev (take (Suc (length str - 1)) str)))"
    using ne h0 by (intro trim_end_eq) simp_all
  moreover have "trim_whitespace s = take (Suc (trim_end str (length str - 1))) str"
    unfolding trim_whitespace_def Let_def str_def [symmetric] using ne by simp
  moreover have "strip s = rev (dropWhile isspace (rev str))"
    by (simp add: strip_def str_def)
  ultimately show ?thesis using ne by simp
qed

lemma split_commas_ne: "split_commas s \<noteq> []"
  by (induction s) (auto split: list.splits)

lemma split_commas_comma: "is_comma c \<Longrightarrow> split_commas (c # cs) = [] # split_commas cs"
  by simp

lemma split_commas_other:
  "\<not> is_comma c \<Longrightarrow> split_commas (c # cs) = (c # hd (split_commas cs)) # tl (split_commas cs)"
  using split_commas_ne [of cs] by (cases "split_commas cs") auto

lemma hd_split_commas: "hd (split_commas s) = takeWhile (\<lambda>c. \<not> is_comma c) s"
proof (induction s)
  case Nil
  show ?case by simp
next
  case (Cons c cs)
  then show ?case
    by (cases "is_comma c") (simp_all add: split_commas_comma split_commas_other del: split_commas.simps)
qed

lemma tl_split_commas:
  "tl (split_commas s) =
     (case dropWhile (\<lambda>c. \<not> is_comma c) s of [] \<Rightarrow> [] | c # rest \<Rightarrow> split_commas rest)"
proof (induction s)
  case Nil
  show ?case by simp
next
  case (Cons c cs)
  then show ?case
    by (cases "is_comma c") (simp_all add: split_commas_comma split_commas_other del: split_commas.simps)
qed

lemma payload_tokens_Nil: "payload_tokens [] = []"
  by (simp add: payload_tokens_def)

lemma payload_tokens_dropWhile: "payload_tokens (dropWhile is_comma s) = payload_tokens s"
  by (induction s) (auto simp: payload_tokens_def)

lemma payload_tokens_start:
  assumes "s \<noteq> []" "\<not> is_comma (hd s)"
  shows "payload_tokens s = takeWhile (\<lambda>c. \<not> is_comma c) s
           # payload_tokens (drop 1 (dropWhile (\<lambda>c. \<not> is_comma c) s))"
proof -
  obtain c cs where s: "s = c # cs" using assms(1) by (cases s) auto
  have c: "\<not> is_comma c" using assms(2) s by simp
  have "split_commas s = hd (split_commas s) # tl (split_commas s)"
    using split_commas_ne [of s] by simp
  moreover have "hd (split_commas s) \<noteq> []"
  proof -
    have "takeWhile (\<lambda>c. \<not> is_comma c) s \<noteq> []" using c s by simp
    then show ?thesis by (simp add: hd_split_commas del: split_commas.simps)
  qed
  moreover have "filter (\<lambda>seg. seg \<noteq> []) (tl (split_commas s))
                 = payload_tokens (drop 1 (dropWhile (\<lambda>c. \<not> is_comma c) s))"
  proof (cases "dropWhile (\<lambda>c. \<not> is_comma c) s")
    case Nil
    then show ?thesis by (simp only: tl_split_commas payload_tokens_def list.case) simp
  next
    case (Cons d rest)
    then show ?thesis by (simp only: tl_split_commas payload_tokens_def list.case) simp
  qed
  ultimately show ?thesis
    unfolding payload_tokens_def by (metis (mono_tags, lifting) filter.simps(2) hd_split_commas)
qed

lemma strtok_None:
  assumes "strtok s = None"
  shows "payload_tokens s = []"
proof -
  have "dropWhile is_comma s = []"
    using assms by (simp add: strtok_def Let_def del: dropWhile_eq_Nil_conv split: if_splits)
  then have "payload_tokens (dropWhile is_comma s) = []"
    by (simp only: payload_tokens_Nil)
  then show ?thesis by (simp only: payload_tokens_dropWhile)
qed

lemma strtok_Some:
  assumes "strtok s = Some (t, rest)"
  shows "payload_tokens s = t # payload_tokens rest" and "length rest < length s"
proof -
  define s1 where "s1 = dropWhile is_comma s"
  have ne: "s1 \<noteq> []" and t: "t = takeWhile (\<lambda>c. \<not> is_comma c) s1"
    and rest: "rest = drop 1 (dropWhile (\<lambda>c. \<not> is_comma c) s1)"
    using assms
    by (auto simp: strtok_def Let_def s1_def simp del: dropWhile_eq_Nil_conv split: if_splits)
  have h: "\<not> is_comma (hd s1)" using ne unfolding s1_def by (rule hd_dropWhile)
  show "payload_tokens s = t # payload_tokens rest"
    using payload_tokens_start [OF ne h] payload_tokens_dropWhile [of s]
    by (simp add: s1_def t rest)
  have "takeWhile (\<lambda>c. \<not> is_comma c) s1 \<noteq> []"
    using ne h by (cases s1) auto
  then have "length (dropWhile (\<lambda>c. \<not> is_comma c) s1) < length s1"
    by (metis length_greater_0_conv length_append takeWhile_dropWhile_id less_add_same_cancel2)
  moreover have "length s1 \<le> length s" by (simp add: s1_def length_dropWhile_le)
  ultimately show "length rest < length s" by (simp add: rest)
qed

lemma parse_loop_tokens:
  "parse_loop (strtok s) out m
     = out @ take (m - length out) (map trim_whitespace (payload_tokens s))"
proof (induction "length s" arbitrary: s out rule: less_induct)
  case less
  show ?case
  proof (cases "strtok s")
    case None
    then show ?thesis by (simp add: strtok_None)
  next
    case (Some p)
    obtain t rest where p: "p = (t, rest)" by (cases p)
    note st = strtok_Some [OF Some [unfolded p]]
    show ?thesis
    proof (cases "length out < m")
      case True
      then obtain k where k: "m - length out = Suc k" by (cases "m - length out") auto
      have "parse_loop (strtok s) out m
              = parse_loop (strtok rest) (out @ [trim_whitespace t]) m"
        using True by (simp add: Some p)
      also have "\<dots> = (out @ [trim_whitespace t])
           @ take (m - length (out @ [trim_whitespace t]))
               (map trim_whitespace (payload_tokens rest))"
        using st(2) by (rule less)
      also have "\<dots> = out @ take (m - length out) (map trim_whitespace (payload_tokens s))"
      proof -
        have "m - Suc (length out) = k" using k by arith
        then show ?thesis using k by (simp add: st(1))
      qed
      finally show ?thesis .
    next
      case False
      then show ?thesis by (simp add: Some p)
    qed
  qed
qed

lemma parse_metrics_tokens:
  "parse_metrics input m = take m (map trim_whitespace (payload_tokens input))"
  by (simp add: parse_metrics_def parse_loop_tokens)

section \<open>Status, dispatch and the monitoring loop\<close>

lemma strip_clean:
  "strip s = [] \<or> (\<not> isspace (hd (strip s)) \<and> \<not> isspace (last (strip s)))"
proof (cases "strip s = []")
  case True
  then show ?thesis by simp
next
  case False
  define a where "a = dropWhile isspace s"
  define b where "b = dropWhile isspace (rev a)"
  have s: "strip s = rev b" by (simp add: strip_def a_def b_def)
  have b: "b \<noteq> []" using False s by simp
  then have a: "a \<noteq> []" by (auto simp: b_def)
  have "\<not> isspace (hd b)" using b unfolding b_def by (rule hd_dropWhile)
  then have l: "\<not> isspace (last (strip s))" using b by (simp add: s last_rev)
  have "last b = last (rev a)"
    using b unfolding b_def
    by (metis append_Nil2 last_appendR takeWhile_dropWhile_id)
  then have "hd (strip s) = hd a" using a b by (simp add: s hd_rev last_rev)
  moreover have "\<not> isspace (hd a)" using a unfolding a_def by (rule hd_dropWhile)
  ultimately show ?thesis using l by simp
qed

lemma update_status_eq:
  "update_status s w =
     (if status_openable w then w\<lparr>status_file := Some (s @ [CHR 0x0A])\<rparr>
      else w\<lparr>trace := trace w @ [Perror ''fopen'']\<rparr>)"
  by (simp add: update_status_def fopen_status_def fprintf_status_def fclose_def perror_def emit_def)

lemma resolve_ok:
  "\<forall>m\<in>set ms. lookup_metric reg m \<noteq> NULL \<Longrightarrow>
   resolve_metrics reg ms fns w =
     (Inr (fns @ map (lookup_metric reg) ms),
      w\<lparr>trace := trace w @ map (\<lambda>m. Stdout (processing_line m)) ms\<rparr>)"
  by (induction ms arbitrary: fns w) (simp_all add: printf_def emit_def Let_def)

lemma resolve_fail:
  "first_unresolved reg ms = Some bad \<Longrightarrow>
   resolve_metrics reg ms fns w =
     (Inl bad,
      w\<lparr>trace := trace w @ map (\<lambda>m. Stdout (processing_line m))
          (takeWhile (\<lambda>m. lookup_metric reg m \<noteq> NULL) ms @ [bad])\<rparr>)"
  by (induction ms arbitrary: fns w)
     (auto simp: first_unresolved_def printf_def emit_def Let_def split: if_splits)

lemma run_updates_trace:
  "run_updates fns i w = w\<lparr>trace := trace w @ cycle_events fns i\<rparr>"
  by (induction fns arbitrary: i w)
     (simp_all add: emit_def fprintf_stderr_def split: fn_ptr.splits)

lemma monitoring_loop_trace:
  "monitoring_loop n fns w =
     w\<lparr>trace := trace w @ concat (replicate n (cycle_events fns 0 @ [Sleep]))\<rparr>"
  by (induction n arbitrary: w) (simp_all add: run_updates_trace sleep_def emit_def)

lemma first_unresolved_None:
  "first_unresolved reg ms = None \<longleftrightarrow> (\<forall>m\<in>set ms. lookup_metric reg m \<noteq> NULL)"
  by (auto simp: first_unresolved_def find_None_iff)

lemma first_unresolved_Some:
  "first_unresolved reg ms = Some bad \<Longrightarrow> bad \<in> set ms \<and> lookup_metric reg bad = NULL"
  by (auto simp: first_unresolved_def find_Some_iff)

lemma start_ok:
  assumes "\<forall>m\<in>set ms. lookup_metric reg m \<noteq> NULL"
  shows "start_metrics_monitoring reg ms n w =
     Monitoring (monitoring_loop n (map (lookup_metric reg) ms)
       (update_status ''Metrics monitoring started''
          ((create_threads (init_metrics ms w))
             \<lparr>trace := trace (create_threads (init_metrics ms w))
                 @ map (\<lambda>m. Stdout (processing_line m)) ms\<rparr>)))"
  using assms by (simp add: start_metrics_monitoring_def Let_def resolve_ok)

lemma start_fail:
  assumes "first_unresolved reg ms = Some bad"
  shows "start_metrics_monitoring reg ms n w =
     Returned
       (fprintf_stderr (no_update_function bad @ [CHR 0x0A])
         (fprintf_stderr (snprintf BUFFER_SIZE (no_update_function bad) @ [CHR 0x0A])
           (update_status (snprintf BUFFER_SIZE (no_update_function bad))
             ((create_threads (init_metrics ms w))
               \<lparr>trace := trace (create_threads (init_metrics ms w))
                 @ map (\<lambda>m. Stdout (processing_line m))
                     (takeWhile (\<lambda>m. lookup_metric reg m \<noteq> NULL) ms @ [bad])\<rparr>))))"
  using assms by (simp add: start_metrics_monitoring_def Let_def resolve_fail)

lemma lookup_metric_entry:
  "lookup_metric reg m \<noteq> NULL \<Longrightarrow>
     \<exists>info\<in>set reg. name info = m \<and> update_function info = lookup_metric reg m"
  by (induction reg) (auto split: if_splits)

lemma lookup_metric_distinct:
  "distinct (map name reg) \<Longrightarrow> info \<in> set reg \<Longrightarrow>
     lookup_metric reg (name info) = update_function info"
  by (induction reg) (auto simp: image_iff)

lemma lookup_metric_absent: "m \<notin> name ` set reg \<Longrightarrow> lookup_metric reg m = NULL"
  by (induction reg) auto

section \<open>Reading the channel\<close>

lemma channel_opens_iff:
  "channel_opens w \<longleftrightarrow>
     fopen_fifo_ok w \<and>
     ((mkfifo_fault w = None) \<or> (mkfifo_fault w = Some EEXIST \<and> fifo_node w \<noteq> None))"
  by (auto simp: channel_opens_def mkfifo_def fopen_fifo_def split: option.splits)

lemma after_read_eq:
  "channel_opens w \<Longrightarrow>
   after_read w =
     w\<lparr>fifo_node := (case fifo_node w of None \<Rightarrow> Some (0x1B6 AND NOT (umask w)) | Some m \<Rightarrow> Some m),
       open_streams := FIFO_PATH # open_streams w,
       fifo_payload := drop (BUFFER_SIZE - 1) (fifo_payload w)\<rparr>"
  by (auto simp: channel_opens_iff after_read_def mkfifo_def fopen_fifo_def fread_def
           split: option.splits)

lemma from_fifo:
  assumes "channel_opens w"
  shows "start_monitoring_from_fifo reg n w =
    (if fifo_payload w = []
     then Returned (unlink_fifo (fclose FIFO_PATH (perror ''fread'' (after_read w))))
     else if requested w \<noteq> [] \<and> hd (requested w) = ''1''
     then Returned (unlink_fifo (fclose FIFO_PATH (show_available_metrics reg (after_read w))))
     else if requested w \<noteq> []
     then (case start_metrics_monitoring reg (requested w) n (after_read w) of
             Returned w4 \<Rightarrow> Returned (unlink_fifo (fclose FIFO_PATH w4))
           | Exited c w4 \<Rightarrow> Exited c w4
           | Monitoring w4 \<Rightarrow> Monitoring w4)
     else Returned (unlink_fifo (fclose FIFO_PATH (after_read w))))"
proof -
  obtain r w1 where m: "mkfifo w = (r, w1)" by (cases "mkfifo w")
  obtain w2 where f: "fopen_fifo w1 = (True, w2)"
    using assms m by (cases "fopen_fifo w1") (auto simp: channel_opens_def)
  have r: "r = None \<or> r = Some EEXIST" using assms m by (simp add: channel_opens_def)
  have p: "fifo_payload w2 = fifo_payload w"
    using m f by (auto simp: mkfifo_def fopen_fifo_def split: option.splits if_splits)
  have a: "after_read w = snd (fread (BUFFER_SIZE - 1) w2)"
    by (simp add: after_read_def m f)
  have b: "fst (fread (BUFFER_SIZE - 1) w2) = take (BUFFER_SIZE - 1) (fifo_payload w)"
    by (simp add: fread_def p)
  have z: "take (BUFFER_SIZE - 1) (fifo_payload w) = [] \<longleftrightarrow> fifo_payload w = []"
    by (simp add: BUFFER_SIZE_def)
  obtain buffer w3 where fr: "fread (BUFFER_SIZE - 1) w2 = (buffer, w3)"
    by (cases "fread (BUFFER_SIZE - 1) w2")
  have w3: "w3 = after_read w" and bu: "buffer = take (BUFFER_SIZE - 1) (fifo_payload w)"
    using a b fr by simp_all
  have q: "parse_metrics (c_str buffer) MAX_METRICS = requested w"
    by (simp add: requested_def bu)
  show ?thesis
    unfolding start_monitoring_from_fifo_def m f fr prod.case bool.case Let_def q
    using r z by (auto simp: w3 bu)
qed


lemma requested_empty: "fifo_payload w = [] \<Longrightarrow> requested w = []"
  by (simp add: requested_def c_str_def parse_metrics_def strtok_def)


section \<open>Failing closed, and monitoring\<close>

lemma startup_trace:
  "\<exists>es. trace (create_threads (init_metrics ms w)) = trace w @ es \<and> list_all outside_loop es"
  by (auto simp: create_threads_def init_metrics_def update_status_eq fprintf_stderr_def emit_def)

lemma startup_fields:
  "status_openable (create_threads (init_metrics ms w)) = status_openable w"
  "fifo_node (create_threads (init_metrics ms w)) = fifo_node w"
  "open_streams (create_threads (init_metrics ms w)) = open_streams w"
  by (auto simp: create_threads_def init_metrics_def update_status_eq fprintf_stderr_def emit_def)

lemma startup_status:
  "\<not> status_openable w \<Longrightarrow> status_file (create_threads (init_metrics ms w)) = status_file w"
  by (auto simp: create_threads_def init_metrics_def update_status_eq fprintf_stderr_def emit_def)

lemma processing_outside_loop:
  "list_all outside_loop (map (\<lambda>m. Stdout (processing_line m)) ms)"
  by (induction ms) simp_all

lemma fail_closed:
  assumes "first_unresolved reg selected = Some bad"
  shows "\<exists>w'. start_metrics_monitoring reg selected n w = Returned w'
       \<and> (\<exists>es. trace w' = trace w @ es \<and> list_all outside_loop es)
       \<and> (status_openable w \<longrightarrow>
            status_file w' = Some (take 255 (no_update_function bad) @ [CHR 0x0A]))
       \<and> (\<not> status_openable w \<longrightarrow> status_file w' = status_file w)
       \<and> fifo_node w' = fifo_node w \<and> open_streams w' = open_streams w"
proof -
  obtain es where es: "trace (create_threads (init_metrics selected w)) = trace w @ es"
      "list_all outside_loop es"
    using startup_trace by blast
  show ?thesis
    unfolding start_fail [OF assms]
    by (auto simp: es startup_fields startup_status update_status_eq fprintf_stderr_def emit_def
          snprintf_def BUFFER_SIZE_def processing_outside_loop)
qed

lemma first_unresolved_ex:
  "m \<in> set selected \<Longrightarrow> lookup_metric reg m = NULL \<Longrightarrow>
     \<exists>bad. first_unresolved reg selected = Some bad"
  by (cases "first_unresolved reg selected") (auto simp: first_unresolved_None)

lemma no_update_function_length: "length (no_update_function m) = 45 + length m"
  by (simp add: no_update_function_def)

lemma cycle_events_resolved:
  "\<forall>m\<in>set ms. lookup_metric reg m \<noteq> NULL \<Longrightarrow>
     cycle_events (map (lookup_metric reg) ms) i = map (\<lambda>m. Update (addr (lookup_metric reg m))) ms"
proof (induction ms arbitrary: i)
  case Nil
  show ?case by simp
next
  case (Cons m ms)
  then show ?case by (cases "lookup_metric reg m") simp_all
qed

lemma monitors:
  assumes "\<forall>m\<in>set ms. lookup_metric reg m \<noteq> NULL"
  shows "\<exists>w'. start_metrics_monitoring reg ms n w = Monitoring w'
       \<and> fifo_node w' = fifo_node w \<and> open_streams w' = open_streams w
       \<and> (pthread_create_ok w \<and> status_openable w \<longrightarrow>
            status_file w' = Some (''Metrics monitoring started'' @ [CHR 0x0A])
            \<and> exposition_running w'
            \<and> trace w' = trace w @ [InitMetrics ms, PthreadCreate True]
                 @ map (\<lambda>m. Stdout (processing_line m)) ms
                 @ concat (replicate n
                     (map (\<lambda>m. Update (addr (lookup_metric reg m))) ms @ [Sleep])))"
  unfolding start_ok [OF assms] monitoring_loop_trace cycle_events_resolved [OF assms]
  by (auto simp: startup_fields update_status_eq create_threads_def init_metrics_def emit_def
        fprintf_stderr_def)


lemma split_commas_no_comma: "list_all (\<lambda>c. \<not> is_comma c) s \<Longrightarrow> split_commas s = [s]"
  by (induction s) (simp_all add: split_commas_other del: split_commas.simps(2))

lemma strip_blank:
  assumes "list_all isspace s"
  shows "strip s = []"
proof -
  have "dropWhile isspace s = []" using assms by (simp add: list_all_iff)
  then show ?thesis by (simp only: strip_def) simp
qed

lemma parse_metrics_segments:
  "parse_metrics input max_metrics
     = take max_metrics (map strip (filter (\<lambda>seg. seg \<noteq> []) (split_commas input)))"
  by (simp add: parse_metrics_tokens trim_whitespace_strip [abs_def] payload_tokens_def)

lemma isspace_not_comma: "isspace c \<Longrightarrow> \<not> is_comma c"
  by (auto simp: isspace_def is_comma_def)

lemma blank_segment_token:
  assumes "seg \<noteq> []" "list_all isspace seg"
  shows "parse_metrics seg (Suc k) = [[]]"
proof -
  have b: "strip seg = []" using assms(2) by (rule strip_blank)
  have "list_all (\<lambda>c. \<not> is_comma c) seg"
    using assms(2) by (simp add: list_all_iff isspace_not_comma)
  then have sc: "split_commas seg = [seg]" by (rule split_commas_no_comma)
  have "parse_metrics seg (Suc k)
          = take (Suc k) (map strip (filter (\<lambda>s. s \<noteq> []) [seg]))"
    by (simp only: parse_metrics_segments sc)
  then show ?thesis using assms(1) b by simp
qed


lemma lookup_metric_registered:
  assumes "m \<in> name ` set reg"
      and "\<forall>info\<in>set reg. name info = m \<longrightarrow> update_function info \<noteq> NULL"
  shows "lookup_metric reg m \<noteq> NULL"
  using assms by (induction reg) auto

lemma filter_concat_replicate:
  "filter P (concat (replicate n xs)) = concat (replicate n (filter P xs))"
  by (induction n) simp_all

lemma startup_updates:
  "filter is_update (trace (create_threads (init_metrics ms w))) = filter is_update (trace w)"
  by (auto simp: create_threads_def init_metrics_def update_status_eq fprintf_stderr_def emit_def)

lemma monitoring_updates:
  assumes "\<forall>m\<in>set ms. lookup_metric reg m \<noteq> NULL"
  shows "filter is_update (trace (world_of (start_metrics_monitoring reg ms n w)))
           = filter is_update (trace w)
             @ concat (replicate n (map (\<lambda>m. Update (addr (lookup_metric reg m))) ms))"
proof -
  have a: "filter is_update (map (\<lambda>m. Stdout (processing_line m)) ms) = []"
    by (induction ms) simp_all
  have b: "filter is_update (map (\<lambda>m. Update (addr (lookup_metric reg m))) ms)
             = map (\<lambda>m. Update (addr (lookup_metric reg m))) ms"
    by (induction ms) simp_all
  show ?thesis
    unfolding start_ok [OF assms] monitoring_loop_trace cycle_events_resolved [OF assms]
    by (simp add: update_status_eq filter_concat_replicate startup_updates a b)
qed

section \<open>The claims\<close>

text \<open>
  Claim C4. A payload with no empty segment and at most ten segments parses to exactly
  its segments, in their order, each with its leading and trailing whitespace removed:
  the result has as many tokens as the payload has segments, token \<open>i\<close> is segment
  \<open>i\<close> stripped, and no token starts or ends with a whitespace byte.
\<close>

theorem C4_parse_well_formed:
  assumes "well_formed payload" and "length (split_commas payload) \<le> MAX_METRICS"
  shows "parse_metrics payload MAX_METRICS = map strip (split_commas payload)
       \<and> length (parse_metrics payload MAX_METRICS) = length (split_commas payload)
       \<and> (\<forall>i < length (split_commas payload).
             parse_metrics payload MAX_METRICS ! i = strip (split_commas payload ! i))
       \<and> (\<forall>t \<in> set (parse_metrics payload MAX_METRICS).
             t = [] \<or> (\<not> isspace (hd t) \<and> \<not> isspace (last t)))"
proof -
  have "payload_tokens payload = split_commas payload"
    using assms(1) by (simp add: well_formed_def payload_tokens_def list_all_iff)
  then have eq: "parse_metrics payload MAX_METRICS = map strip (split_commas payload)"
    using assms(2) by (simp add: parse_metrics_tokens trim_whitespace_strip [abs_def])
  show ?thesis using strip_clean by (auto simp: eq)
qed

text \<open>The payload \<open>" cpu, memory ,disk"\<close> parses to cpu, memory, disk.\<close>

theorem C4_parse_well_formed_witness:
  "well_formed '' cpu, memory ,disk''
   \<and> length (split_commas '' cpu, memory ,disk'') \<le> MAX_METRICS
   \<and> parse_metrics '' cpu, memory ,disk'' MAX_METRICS = [''cpu'', ''memory'', ''disk'']"
proof -
  have h1: "well_formed '' cpu, memory ,disk''"
    by (simp add: well_formed_def is_comma_def)
  have h2: "length (split_commas '' cpu, memory ,disk'') \<le> MAX_METRICS"
    by (simp add: MAX_METRICS_def is_comma_def)
  have "map strip (split_commas '' cpu, memory ,disk'') = [''cpu'', ''memory'', ''disk'']"
    by (simp add: strip_def is_comma_def isspace_def)
  then show ?thesis using h1 h2 C4_parse_well_formed [OF h1 h2] by simp
qed

text \<open>
  Claim C8. For every status string: when the status file can be opened, the call
  leaves it holding exactly that string and a newline, whatever it held before, with
  no stream left open and nothing else changed; when it cannot be opened, the call
  logs the failure of \<open>fopen\<close> and returns with the file as it was. The function
  has no path that exits the process.
\<close>

theorem C8_update_status:
  "(status_openable w \<longrightarrow>
      update_status status w = w\<lparr>status_file := Some (status @ [CHR 0x0A])\<rparr>
      \<and> status_file (update_status status w) = Some (status @ [CHR 0x0A])
      \<and> open_streams (update_status status w) = open_streams w)
   \<and> (\<not> status_openable w \<longrightarrow>
      update_status status w = w\<lparr>trace := trace w @ [Perror ''fopen'']\<rparr>
      \<and> status_file (update_status status w) = status_file w)"
  by (simp add: update_status_eq)

text \<open>Both cases of the status reporter, run on the world of the start.\<close>

theorem C8_update_status_witness:
  "status_openable (boot_world [])
   \<and> status_file (update_status ''Metrics monitoring started'' (boot_world []))
       = Some (''Metrics monitoring started'' @ [CHR 0x0A])
   \<and> \<not> status_openable ((boot_world [])\<lparr>status_openable := False\<rparr>)
   \<and> update_status ''Metrics monitoring started'' ((boot_world [])\<lparr>status_openable := False\<rparr>)
       = (boot_world [])\<lparr>status_openable := False, trace := [Perror ''fopen'']\<rparr>"
  using C8_update_status [of "boot_world []" "''Metrics monitoring started''"]
        C8_update_status [of "(boot_world [])\<lparr>status_openable := False\<rparr>" "''Metrics monitoring started''"]
  by (simp add: boot_world_def)

text \<open>
  Claim C5. When every requested name is the name of an entry of the registry, and the
  entries under the requested names hold a callback, the dispatch table the outer loop
  builds has one entry per requested name, and entry \<open>i\<close> is the callback of a
  registry entry whose name is token \<open>i\<close> (of every such entry, so of the only
  one, when the names of the registry are distinct). Repeated names give repeated
  entries; each cycle of the monitoring loop then invokes the entries of the table in
  order.
\<close>

theorem C5_dispatch_table:
  assumes "set selected \<subseteq> name ` set reg"
      and "\<forall>info\<in>set reg. name info \<in> set selected \<longrightarrow> update_function info \<noteq> NULL"
  shows "\<exists>table. fst (resolve_metrics reg selected [] w) = Inr table
       \<and> length table = length selected
       \<and> (\<forall>i < length selected.
            (\<exists>info\<in>set reg. name info = selected ! i \<and> table ! i = update_function info)
            \<and> (distinct (map name reg) \<longrightarrow>
                 (\<forall>info\<in>set reg. name info = selected ! i \<longrightarrow>
                    table ! i = update_function info)))
       \<and> (\<exists>w'. start_metrics_monitoring reg selected n w = Monitoring w'
             \<and> filter is_update (trace w')
                 = filter is_update (trace w)
                   @ concat (replicate n (map (\<lambda>f. Update (addr f)) table)))"
proof -
  have r: "\<forall>m\<in>set selected. lookup_metric reg m \<noteq> NULL"
  proof
    fix m assume m: "m \<in> set selected"
    then have "m \<in> name ` set reg" using assms(1) by auto
    moreover have "\<forall>info\<in>set reg. name info = m \<longrightarrow> update_function info \<noteq> NULL"
      using assms(2) m by auto
    ultimately show "lookup_metric reg m \<noteq> NULL" by (rule lookup_metric_registered)
  qed
  define table where "table = map (lookup_metric reg) selected"
  have t: "fst (resolve_metrics reg selected [] w) = Inr table"
    using r by (simp add: resolve_ok table_def)
  have l: "length table = length selected" by (simp add: table_def)
  have e: "\<exists>info\<in>set reg. name info = selected ! i \<and> table ! i = update_function info"
    if "i < length selected" for i
    using that r lookup_metric_entry [of reg "selected ! i"] by (fastforce simp: table_def)
  have d: "table ! i = update_function info"
    if "i < length selected" "distinct (map name reg)" "info \<in> set reg" "name info = selected ! i"
    for i info
    using that lookup_metric_distinct [of reg info] by (simp add: table_def)
  obtain w' where w': "start_metrics_monitoring reg selected n w = Monitoring w'"
    using start_ok [OF r] by blast
  have u: "filter is_update (trace w')
                 = filter is_update (trace w)
                   @ concat (replicate n (map (\<lambda>f. Update (addr f)) table))"
    using monitoring_updates [OF r, of n w] by (simp add: w' table_def comp_def)
  show ?thesis using t l e d w' u by blast
qed

text \<open>
  The request memory, cpu, memory resolves to the callbacks of memory, cpu and memory,
  which two cycles invoke in that order.
\<close>

theorem C5_dispatch_table_witness:
  "set [''memory'', ''cpu'', ''memory''] \<subseteq> name ` set demo_registry
   \<and> list_all (\<lambda>info. update_function info \<noteq> NULL) demo_registry
   \<and> distinct (map name demo_registry)
   \<and> fst (resolve_metrics demo_registry [''memory'', ''cpu'', ''memory''] [] (boot_world []))
       = Inr [Fn 2, Fn 1, Fn 2]
   \<and> filter is_update (trace (world_of
         (start_metrics_monitoring demo_registry [''memory'', ''cpu'', ''memory''] 2
            (boot_world []))))
       = [Update 2, Update 1, Update 2, Update 2, Update 1, Update 2]"
proof -
  have h1: "set [''memory'', ''cpu'', ''memory''] \<subseteq> name ` set demo_registry"
    by (simp add: demo_registry_def)
  have h2: "\<forall>info\<in>set demo_registry.
              name info \<in> set [''memory'', ''cpu'', ''memory''] \<longrightarrow> update_function info \<noteq> NULL"
    by (simp add: demo_registry_def)
  have h3: "list_all (\<lambda>info. update_function info \<noteq> NULL) demo_registry"
    by (simp add: demo_registry_def)
  have h4: "distinct (map name demo_registry)" by (simp add: demo_registry_def)
  have t0: "trace (boot_world []) = []" by (simp add: boot_world_def)
  obtain table w' where
      t: "fst (resolve_metrics demo_registry [''memory'', ''cpu'', ''memory''] [] (boot_world []))
            = Inr table"
      and l: "length table = length [''memory'', ''cpu'', ''memory'']"
      and e: "\<forall>i < length [''memory'', ''cpu'', ''memory''].
            (distinct (map name demo_registry) \<longrightarrow>
                 (\<forall>info\<in>set demo_registry. name info = [''memory'', ''cpu'', ''memory''] ! i \<longrightarrow>
                    table ! i = update_function info))"
      and m: "start_metrics_monitoring demo_registry [''memory'', ''cpu'', ''memory''] 2
                (boot_world []) = Monitoring w'"
      and u: "filter is_update (trace w')
                 = filter is_update (trace (boot_world []))
                   @ concat (replicate 2 (map (\<lambda>f. Update (addr f)) table))"
    using C5_dispatch_table [OF h1 h2, of "boot_world []" 2] by blast
  have e0: "table ! 0 = Fn 2" and e1: "table ! 1 = Fn 1" and e2: "table ! 2 = Fn 2"
    using e h4 by (auto simp: demo_registry_def)
  obtain a b c where abc: "table = [a, b, c]"
    using l by (auto simp: length_Suc_conv)
  have tb: "table = [Fn 2, Fn 1, Fn 2]"
    using e0 e1 e2 by (simp add: abc)
  have r1: "fst (resolve_metrics demo_registry [''memory'', ''cpu'', ''memory''] [] (boot_world []))
       = Inr [Fn 2, Fn 1, Fn 2]"
    by (simp only: t tb)
  have r2: "filter is_update (trace (world_of
         (start_metrics_monitoring demo_registry [''memory'', ''cpu'', ''memory''] 2
            (boot_world []))))
       = [Update 2, Update 1, Update 2, Update 2, Update 1, Update 2]"
    by (simp only: m world_of.simps u tb t0) (simp add: numeral_2_eq_2)
  show ?thesis by (intro conjI h1 h3 h4 r1 r2)
qed

text \<open>
  Claim C6. When the channel is usable and the first parsed token is \<open>"1"\<close>, then
  whatever tokens follow and for every number of cycles one might wait, the call
  returns: it has listed the names of the registry, closed the stream and removed the
  node, and has done nothing else (no initialisation, no thread, no status write, no
  callback, no cycle of the monitoring loop).
\<close>

theorem C6_introspection:
  assumes "channel_opens w" and "requested w = ''1'' # rest"
  shows "start_monitoring_from_fifo reg n w =
           Returned (w\<lparr>fifo_payload := drop (BUFFER_SIZE - 1) (fifo_payload w),
                      fifo_node := None,
                      trace := trace w @ [AvailableMetrics (map name reg)]\<rparr>)"
proof -
  have "fifo_payload w \<noteq> []" using assms(2) requested_empty [of w] by auto
  then show ?thesis
    using assms
    by (simp add: from_fifo after_read_eq unlink_fifo_def fclose_def
                  show_available_metrics_def emit_def)
qed

text \<open>The payload \<open>"1,cpu,disk"\<close> lists cpu and memory and removes the channel.\<close>

theorem C6_introspection_witness:
  "channel_opens (boot_world ''1,cpu,disk'')
   \<and> requested (boot_world ''1,cpu,disk'') = [''1'', ''cpu'', ''disk'']
   \<and> start_monitoring_from_fifo demo_registry 3 (boot_world ''1,cpu,disk'') =
       Returned ((boot_world [])\<lparr>trace := [AvailableMetrics [''cpu'', ''memory'']]\<rparr>)"
proof -
  have h1: "channel_opens (boot_world ''1,cpu,disk'')"
    by (simp add: channel_opens_iff boot_world_def)
  have h2: "requested (boot_world ''1,cpu,disk'') = [''1'', ''cpu'', ''disk'']"
    by (simp add: requested_def boot_world_def BUFFER_SIZE_def MAX_METRICS_def c_str_def
          parse_metrics_tokens trim_whitespace_strip payload_tokens_def strip_def
          is_comma_def isspace_def)
  show ?thesis
    using h1 h2 C6_introspection [OF h1 h2, of demo_registry 3]
    by (simp add: boot_world_def demo_registry_def BUFFER_SIZE_def)
qed



text \<open>
  Claim C1, as amended. When some requested name does not resolve, then for every
  number of cycles one might wait the call returns: the monitoring loop is not entered
  and no callback runs, also not those of names resolved before the first unresolved
  one. The status reporter is called with the line
  \<open>Error: No update function found for metric '<name>'\<close> for the first unresolved
  name, cut to 255 bytes; when the status file can be opened it holds that line (the
  whole line when the name has at most 210 bytes), and when it cannot be opened it
  stays as it was.
\<close>

theorem C1_dispatch_fails_closed:
  assumes "m \<in> set selected" and "lookup_metric reg m = NULL"
  shows "\<exists>bad w'. first_unresolved reg selected = Some bad
       \<and> start_metrics_monitoring reg selected n w = Returned w'
       \<and> (\<exists>es. trace w' = trace w @ es \<and> list_all outside_loop es)
       \<and> (status_openable w \<longrightarrow>
            status_file w' = Some (take 255 (no_update_function bad) @ [CHR 0x0A]))
       \<and> (status_openable w \<and> length bad \<le> 210 \<longrightarrow>
            status_file w' = Some (no_update_function bad @ [CHR 0x0A]))
       \<and> (\<not> status_openable w \<longrightarrow> status_file w' = status_file w)"
proof -
  obtain bad where b: "first_unresolved reg selected = Some bad"
    using first_unresolved_ex [OF assms] by blast
  obtain w' where w': "start_metrics_monitoring reg selected n w = Returned w'"
      "\<exists>es. trace w' = trace w @ es \<and> list_all outside_loop es"
      "status_openable w \<longrightarrow>
            status_file w' = Some (take 255 (no_update_function bad) @ [CHR 0x0A])"
      "\<not> status_openable w \<longrightarrow> status_file w' = status_file w"
    using fail_closed [OF b, of n w] by blast
  have "length bad \<le> 210 \<Longrightarrow> take 255 (no_update_function bad) = no_update_function bad"
    by (simp add: no_update_function_length)
  then show ?thesis using b w' by auto
qed

text \<open>The request cpu, disk against the registry of cpu and memory.\<close>

theorem C1_dispatch_fails_closed_witness:
  "''disk'' \<in> set [''cpu'', ''disk''] \<and> lookup_metric demo_registry ''disk'' = NULL
   \<and> first_unresolved demo_registry [''cpu'', ''disk''] = Some ''disk''
   \<and> start_metrics_monitoring demo_registry [''cpu'', ''disk''] 3 (boot_world []) =
       Returned ((boot_world [])\<lparr>
         status_file := Some (''Error: No update function found for metric ''
                                @ [CHR 0x27] @ ''disk'' @ [CHR 0x27, CHR 0x0A]),
         exposition_running := True,
         trace := [InitMetrics [''cpu'', ''disk''], PthreadCreate True,
                   Stdout (''Processing metric: '' @ [CHR 0x27] @ ''cpu'' @ [CHR 0x27, CHR 0x0A]),
                   Stdout (''Processing metric: '' @ [CHR 0x27] @ ''disk'' @ [CHR 0x27, CHR 0x0A]),
                   Stderr (''Error: No update function found for metric ''
                                @ [CHR 0x27] @ ''disk'' @ [CHR 0x27, CHR 0x0A]),
                   Stderr (''Error: No update function found for metric ''
                                @ [CHR 0x27] @ ''disk'' @ [CHR 0x27, CHR 0x0A])]\<rparr>)"
proof -
  have h1: "''disk'' \<in> set [''cpu'', ''disk'']" by simp
  have h2: "lookup_metric demo_registry ''disk'' = NULL" by (simp add: demo_registry_def)
  show ?thesis
    using h1 h2 C1_dispatch_fails_closed [OF h1 h2, of 3 "boot_world []"]
    by (simp add: start_metrics_monitoring_def first_unresolved_def demo_registry_def
          boot_world_def init_metrics_def create_threads_def update_status_eq fprintf_stderr_def
          printf_def emit_def processing_line_def no_update_function_def snprintf_def
          BUFFER_SIZE_def)
qed

text \<open>
  Claim C1 as stated fails in two ways. With a status file that cannot be opened, the
  unresolved request cpu, disk leaves the file with the message of the start. And
  with a status file that can be opened, two different unresolved names of 250 and 251
  bytes leave the same content in it: the line is cut before the names differ.
\<close>

theorem C1_status_not_written_counterexample:
  "status_file (world_of (start_metrics_monitoring demo_registry [''cpu'', ''disk''] 1
       ((boot_world [])\<lparr>status_openable := False\<rparr>)))
     = Some (''Starting monitoring from FIFO'' @ [CHR 0x0A])
   \<and> replicate 250 CHR ''x'' \<noteq> replicate 251 CHR ''x''
   \<and> status_file (world_of (start_metrics_monitoring demo_registry [replicate 250 CHR ''x''] 1
         (boot_world [])))
     = status_file (world_of (start_metrics_monitoring demo_registry [replicate 251 CHR ''x''] 1
         (boot_world [])))"
proof -
  have a: "status_file (world_of (start_metrics_monitoring demo_registry [''cpu'', ''disk''] 1
       ((boot_world [])\<lparr>status_openable := False\<rparr>)))
     = Some (''Starting monitoring from FIFO'' @ [CHR 0x0A])"
    by (simp add: start_metrics_monitoring_def demo_registry_def
          boot_world_def init_metrics_def create_threads_def update_status_eq fprintf_stderr_def
          printf_def emit_def)
  have b: "replicate 250 CHR ''x'' \<noteq> replicate 251 CHR ''x''"
  proof
    assume "replicate 250 CHR ''x'' = replicate 251 CHR ''x''"
    then have "length (replicate 250 CHR ''x'') = length (replicate 251 CHR ''x'')"
      by (rule arg_cong)
    then show False by simp
  qed
  have n: "lookup_metric demo_registry (replicate k CHR ''x'') = NULL" if "0 < k" for k
    using that by (cases k) (simp_all add: demo_registry_def)
  have t: "take 255 (no_update_function (replicate k CHR ''x''))
             = take 44 (no_update_function []) @ replicate 211 CHR ''x''" if "250 \<le> k" for k
    using that by (simp add: no_update_function_def min_def)
  have c: "status_file (world_of (start_metrics_monitoring demo_registry [replicate k CHR ''x''] 1
         (boot_world [])))
      = Some (take 44 (no_update_function []) @ replicate 211 CHR ''x'' @ [CHR 0x0A])"
    if "250 \<le> k" for k
    using that t [OF that] n [of k]
    by (simp add: start_metrics_monitoring_def
          boot_world_def init_metrics_def create_threads_def update_status_eq fprintf_stderr_def
          printf_def emit_def snprintf_def BUFFER_SIZE_def)
  show ?thesis using a b c [of 250] c [of 251] by simp
qed

text \<open>
  Which paths release the channel. With a usable channel: when the payload yields a
  request whose first name is not \<open>"1"\<close> and whose names all resolve, then for
  every number of cycles control is in the monitoring loop, the stream is still open and
  the node is still there; in every other case (introspection, a dispatch failure, no
  token, nothing read) the call returns with the stream closed and the node removed.
\<close>

lemma channel_release_paths:
  assumes "channel_opens w"
  shows "(requested w \<noteq> [] \<and> hd (requested w) \<noteq> ''1''
            \<and> (\<forall>m\<in>set (requested w). lookup_metric reg m \<noteq> NULL)
          \<longrightarrow> (\<exists>w'. start_monitoring_from_fifo reg n w = Monitoring w'
                 \<and> open_streams w' = FIFO_PATH # open_streams w \<and> fifo_node w' \<noteq> None))
       \<and> (\<not> (requested w \<noteq> [] \<and> hd (requested w) \<noteq> ''1''
            \<and> (\<forall>m\<in>set (requested w). lookup_metric reg m \<noteq> NULL))
          \<longrightarrow> (\<exists>w'. start_monitoring_from_fifo reg n w = Returned w'
                 \<and> open_streams w' = open_streams w \<and> fifo_node w' = None))"
proof (intro conjI impI)
  assume a: "requested w \<noteq> [] \<and> hd (requested w) \<noteq> ''1''
            \<and> (\<forall>m\<in>set (requested w). lookup_metric reg m \<noteq> NULL)"
  then have p: "fifo_payload w \<noteq> []" using requested_empty [of w] by auto
  obtain w' where w': "start_metrics_monitoring reg (requested w) n (after_read w) = Monitoring w'"
      "fifo_node w' = fifo_node (after_read w)" "open_streams w' = open_streams (after_read w)"
    using a monitors [of "requested w" reg n "after_read w"] by blast
  show "\<exists>w'. start_monitoring_from_fifo reg n w = Monitoring w'
                 \<and> open_streams w' = FIFO_PATH # open_streams w \<and> fifo_node w' \<noteq> None"
    using a p w' by (auto simp: from_fifo [OF assms] after_read_eq [OF assms] split: option.splits)
next
  assume a: "\<not> (requested w \<noteq> [] \<and> hd (requested w) \<noteq> ''1''
            \<and> (\<forall>m\<in>set (requested w). lookup_metric reg m \<noteq> NULL))"
  show "\<exists>w'. start_monitoring_from_fifo reg n w = Returned w'
                 \<and> open_streams w' = open_streams w \<and> fifo_node w' = None"
  proof (cases "requested w \<noteq> [] \<and> hd (requested w) \<noteq> ''1''")
    case True
    with a obtain bad where "first_unresolved reg (requested w) = Some bad"
      by (cases "first_unresolved reg (requested w)") (auto simp: first_unresolved_None)
    then obtain w' where
        "start_metrics_monitoring reg (requested w) n (after_read w) = Returned w'"
        "open_streams w' = open_streams (after_read w)"
      using fail_closed [of reg "requested w" bad n "after_read w"] by blast
    moreover have "fifo_payload w \<noteq> []" using True requested_empty [of w] by auto
    ultimately show ?thesis
      using True
      by (auto simp: from_fifo [OF assms] after_read_eq [OF assms] unlink_fifo_def fclose_def)
  next
    case False
    then show ?thesis
      by (auto simp: from_fifo [OF assms] after_read_eq [OF assms] unlink_fifo_def fclose_def
            show_available_metrics_def perror_def emit_def)
  qed
qed

text \<open>
  Claim C2 fails on the code. For the payload \<open>"cpu"\<close>, whose name resolves,
  control is in the monitoring loop after two complete cycles with the stream of the
  channel still open and the node \<open>/tmp/monitor_fifo\<close> still in place: the
  \<open>fclose\<close> and \<open>unlink\<close> that follow the call of
  \<open>start_metrics_monitoring\<close> are not reached. (Lemma
  \<open>channel_release_paths\<close> says so for every number of cycles, and says that
  the other paths release the channel.)
\<close>

theorem C2_channel_kept_while_monitoring:
  "start_monitoring_from_fifo demo_registry 2 (boot_world ''cpu'')
   = Monitoring
       ((boot_world [])\<lparr>
          fifo_node := Some 0x1A4,
          status_file := Some (''Metrics monitoring started'' @ [CHR 0x0A]),
          open_streams := [FIFO_PATH],
          exposition_running := True,
          trace := [InitMetrics [''cpu''], PthreadCreate True,
                    Stdout (''Processing metric: '' @ [CHR 0x27] @ ''cpu'' @ [CHR 0x27, CHR 0x0A]),
                    Update 1, Sleep, Update 1, Sleep]\<rparr>)"
proof -
  have h1: "channel_opens (boot_world ''cpu'')"
    by (simp add: channel_opens_iff boot_world_def)
  have h2: "requested (boot_world ''cpu'') = [''cpu'']"
    by (simp add: requested_def boot_world_def BUFFER_SIZE_def MAX_METRICS_def c_str_def
          parse_metrics_tokens trim_whitespace_strip payload_tokens_def strip_def
          is_comma_def isspace_def)
  have h3: "fifo_payload (boot_world ''cpu'') \<noteq> []" by (simp add: boot_world_def)
  show ?thesis
    unfolding from_fifo [OF h1] h2 after_read_eq [OF h1]
    using h3
    by (simp add: start_metrics_monitoring_def demo_registry_def boot_world_def init_metrics_def
        create_threads_def update_status_eq fprintf_stderr_def printf_def emit_def sleep_def
        processing_line_def numeral_2_eq_2 BUFFER_SIZE_def)
qed



text \<open>
  Claim C3 fails on the code. When \<open>pthread_create\<close> fails, \<open>create_threads\<close>
  reports the error and returns to \<open>start_metrics_monitoring\<close>, which dispatches,
  writes the status of a successful start and runs the callbacks cycle after cycle,
  while no exposition thread runs. (When the thread does start, lemma
  \<open>monitors\<close> gives the order: initialisation, thread, dispatch, cycles.)
\<close>

theorem C3_updates_without_exposition_thread:
  "start_metrics_monitoring demo_registry [''cpu''] 2
       ((boot_world [])\<lparr>pthread_create_ok := False\<rparr>)
   = Monitoring
       ((boot_world [])\<lparr>pthread_create_ok := False,
          status_file := Some (''Metrics monitoring started'' @ [CHR 0x0A]),
          exposition_running := False,
          trace := [InitMetrics [''cpu''], PthreadCreate False,
                    Stderr (''Error creating HTTP server thread'' @ [CHR 0x0A]),
                    Stdout (''Processing metric: '' @ [CHR 0x27] @ ''cpu'' @ [CHR 0x27, CHR 0x0A]),
                    Update 1, Sleep, Update 1, Sleep]\<rparr>)"
  by (simp add: start_metrics_monitoring_def demo_registry_def boot_world_def init_metrics_def
        create_threads_def update_status_eq fprintf_stderr_def printf_def emit_def sleep_def
        processing_line_def numeral_2_eq_2)


text \<open>
  Claim C9. For every input and every bound, \<open>parse_metrics\<close> returns at most
  \<open>max_metrics\<close> tokens: the stripped tokens of the input up to that bound, the
  rest being dropped. When a payload with more than ten tokens is read from a usable
  channel, the first is not \<open>"1"\<close> and the first ten resolve, monitoring starts
  with exactly those ten: nothing is written to the error stream, the status says that
  monitoring started, and each cycle invokes the ten callbacks in order.
\<close>

theorem C9_parse_bounded:
  "length (parse_metrics input max_metrics) \<le> max_metrics
   \<and> parse_metrics input max_metrics = take max_metrics (map strip (payload_tokens input))
   \<and> (channel_opens w
       \<and> MAX_METRICS < length (payload_tokens (c_str (take (BUFFER_SIZE - 1) (fifo_payload w))))
       \<and> hd (requested w) \<noteq> ''1''
       \<and> (\<forall>m\<in>set (requested w). lookup_metric reg m \<noteq> NULL)
      \<longrightarrow> requested w = take MAX_METRICS
             (map strip (payload_tokens (c_str (take (BUFFER_SIZE - 1) (fifo_payload w)))))
        \<and> length (requested w) = MAX_METRICS
        \<and> (\<exists>w'. start_monitoring_from_fifo reg n w = Monitoring w'
             \<and> (pthread_create_ok w \<and> status_openable w \<longrightarrow>
                  status_file w' = Some (''Metrics monitoring started'' @ [CHR 0x0A])
                  \<and> trace w' = trace w @ [InitMetrics (requested w), PthreadCreate True]
                       @ map (\<lambda>m. Stdout (processing_line m)) (requested w)
                       @ concat (replicate n
                           (map (\<lambda>m. Update (addr (lookup_metric reg m))) (requested w)
                            @ [Sleep])))))"
proof (intro conjI impI)
  show p: "parse_metrics input max_metrics = take max_metrics (map strip (payload_tokens input))"
    by (simp add: parse_metrics_tokens trim_whitespace_strip [abs_def])
  show "length (parse_metrics input max_metrics) \<le> max_metrics"
    by (simp add: parse_metrics_tokens)
next
  assume a: "channel_opens w
       \<and> MAX_METRICS < length (payload_tokens (c_str (take (BUFFER_SIZE - 1) (fifo_payload w))))
       \<and> hd (requested w) \<noteq> ''1''
       \<and> (\<forall>m\<in>set (requested w). lookup_metric reg m \<noteq> NULL)"
  then have co: "channel_opens w" by simp
  show r: "requested w = take MAX_METRICS
             (map strip (payload_tokens (c_str (take (BUFFER_SIZE - 1) (fifo_payload w)))))"
    by (simp add: requested_def parse_metrics_tokens trim_whitespace_strip [abs_def])
  show l: "length (requested w) = MAX_METRICS"
    using a by (simp add: r)
  then have ne: "requested w \<noteq> []" by (auto simp: MAX_METRICS_def)
  then have p: "fifo_payload w \<noteq> []" using requested_empty [of w] by auto
  obtain w' where w': "start_metrics_monitoring reg (requested w) n (after_read w) = Monitoring w'"
      "pthread_create_ok (after_read w) \<and> status_openable (after_read w) \<longrightarrow>
            status_file w' = Some (''Metrics monitoring started'' @ [CHR 0x0A])
            \<and> exposition_running w'
            \<and> trace w' = trace (after_read w) @ [InitMetrics (requested w), PthreadCreate True]
                 @ map (\<lambda>m. Stdout (processing_line m)) (requested w)
                 @ concat (replicate n
                     (map (\<lambda>m. Update (addr (lookup_metric reg m))) (requested w) @ [Sleep]))"
    using a monitors [of "requested w" reg n "after_read w"] by blast
  have "start_monitoring_from_fifo reg n w = Monitoring w'"
    using a ne p w'(1) by (simp add: from_fifo [OF co])
  then show "\<exists>w'. start_monitoring_from_fifo reg n w = Monitoring w'
             \<and> (pthread_create_ok w \<and> status_openable w \<longrightarrow>
                  status_file w' = Some (''Metrics monitoring started'' @ [CHR 0x0A])
                  \<and> trace w' = trace w @ [InitMetrics (requested w), PthreadCreate True]
                       @ map (\<lambda>m. Stdout (processing_line m)) (requested w)
                       @ concat (replicate n
                           (map (\<lambda>m. Update (addr (lookup_metric reg m))) (requested w)
                            @ [Sleep])))"
    using w'(2) by (auto simp: after_read_eq [OF co])
qed

text \<open>
  Twelve tokens, the last two of which are not registered: the first ten are
  monitored.
\<close>

theorem C9_parse_bounded_witness:
  "channel_opens (boot_world ''cpu,memory,cpu,memory,cpu,memory,cpu,memory,cpu,memory,disk,net'')
   \<and> length (payload_tokens ''cpu,memory,cpu,memory,cpu,memory,cpu,memory,cpu,memory,disk,net'')
       = 12
   \<and> requested (boot_world ''cpu,memory,cpu,memory,cpu,memory,cpu,memory,cpu,memory,disk,net'')
       = [''cpu'', ''memory'', ''cpu'', ''memory'', ''cpu'', ''memory'', ''cpu'', ''memory'',
          ''cpu'', ''memory'']
   \<and> lookup_metric demo_registry ''cpu'' = Fn 1 \<and> lookup_metric demo_registry ''memory'' = Fn 2
   \<and> lookup_metric demo_registry ''disk'' = NULL
   \<and> filter is_update (trace (world_of (start_monitoring_from_fifo demo_registry 1
        (boot_world ''cpu,memory,cpu,memory,cpu,memory,cpu,memory,cpu,memory,disk,net''))))
       = [Update 1, Update 2, Update 1, Update 2, Update 1, Update 2, Update 1, Update 2,
          Update 1, Update 2]
   \<and> status_file (world_of (start_monitoring_from_fifo demo_registry 1
        (boot_world ''cpu,memory,cpu,memory,cpu,memory,cpu,memory,cpu,memory,disk,net'')))
       = Some (''Metrics monitoring started'' @ [CHR 0x0A])"
proof -
  define p where "p = ''cpu,memory,cpu,memory,cpu,memory,cpu,memory,cpu,memory,disk,net''"
  have h1: "channel_opens (boot_world p)"
    by (simp add: channel_opens_iff boot_world_def)
  have tk: "payload_tokens p = [''cpu'', ''memory'', ''cpu'', ''memory'', ''cpu'', ''memory'',
      ''cpu'', ''memory'', ''cpu'', ''memory'', ''disk'', ''net'']"
    by (simp add: p_def payload_tokens_def is_comma_def)
  have cs: "c_str (take (BUFFER_SIZE - 1) (fifo_payload (boot_world p))) = p"
    by (simp add: p_def boot_world_def BUFFER_SIZE_def c_str_def)
  have h2: "length (payload_tokens p) = 12" by (simp add: tk)
  have h3: "requested (boot_world p)
       = [''cpu'', ''memory'', ''cpu'', ''memory'', ''cpu'', ''memory'', ''cpu'', ''memory'',
          ''cpu'', ''memory'']"
    by (simp only: requested_def cs parse_metrics_tokens trim_whitespace_strip tk)
       (simp add: MAX_METRICS_def trim_whitespace_strip strip_def isspace_def)
  have l: "lookup_metric demo_registry ''cpu'' = Fn 1"
      "lookup_metric demo_registry ''memory'' = Fn 2"
      "lookup_metric demo_registry ''disk'' = NULL"
    by (simp_all add: demo_registry_def)
  have ok: "pthread_create_ok (boot_world p) \<and> status_openable (boot_world p)"
      and t0: "trace (boot_world p) = []"
    by (simp_all add: boot_world_def)
  have hyp: "channel_opens (boot_world p)
       \<and> MAX_METRICS
           < length (payload_tokens (c_str (take (BUFFER_SIZE - 1) (fifo_payload (boot_world p)))))
       \<and> hd (requested (boot_world p)) \<noteq> ''1''
       \<and> (\<forall>m\<in>set (requested (boot_world p)). lookup_metric demo_registry m \<noteq> NULL)"
    using h1 unfolding cs by (simp add: h2 h3 l MAX_METRICS_def)
  obtain w' where w': "start_monitoring_from_fifo demo_registry 1 (boot_world p) = Monitoring w'"
      "status_file w' = Some (''Metrics monitoring started'' @ [CHR 0x0A])"
      "trace w' = trace (boot_world p)
           @ [InitMetrics (requested (boot_world p)), PthreadCreate True]
           @ map (\<lambda>m. Stdout (processing_line m)) (requested (boot_world p))
           @ concat (replicate 1
               (map (\<lambda>m. Update (addr (lookup_metric demo_registry m))) (requested (boot_world p))
                @ [Sleep]))"
    using C9_parse_bounded [of p 3 "boot_world p" demo_registry 1] hyp ok by blast
  have u: "filter is_update (trace w')
       = [Update 1, Update 2, Update 1, Update 2, Update 1, Update 2, Update 1, Update 2,
          Update 1, Update 2]"
    by (simp add: w'(3) t0 h3 l)
  have u': "filter is_update (trace (world_of (start_monitoring_from_fifo demo_registry 1
              (boot_world p))))
       = [Update 1, Update 2, Update 1, Update 2, Update 1, Update 2, Update 1, Update 2,
          Update 1, Update 2]"
    by (simp only: w'(1) world_of.simps u)
  have s': "status_file (world_of (start_monitoring_from_fifo demo_registry 1 (boot_world p)))
       = Some (''Metrics monitoring started'' @ [CHR 0x0A])"
    by (simp only: w'(1) world_of.simps w'(2))
  show ?thesis
    unfolding p_def [symmetric] by (intro conjI h1 h2 h3 l u' s')
qed

text \<open>
  Claim C10. The tokens \<open>parse_metrics\<close> returns are the stripped non-empty
  segments of the input, so an empty segment gives no token (\<open>",,cpu,"\<close> parses
  to cpu alone), while a segment of whitespace only gives the empty token. When no
  entry of the registry has the empty name, a request holding the empty token does not
  resolve and the call returns without entering the loop or running a callback.
\<close>

theorem C10_empty_and_blank_segments:
  "parse_metrics '',,cpu,'' MAX_METRICS = [''cpu'']
   \<and> parse_metrics input max_metrics
       = take max_metrics (map strip (filter (\<lambda>seg. seg \<noteq> []) (split_commas input)))
   \<and> (seg \<noteq> [] \<and> list_all isspace seg \<longrightarrow> strip seg = [] \<and> parse_metrics seg (Suc k) = [[]])
   \<and> ([] \<in> set selected \<and> [] \<notin> name ` set reg \<longrightarrow>
        (\<exists>bad w'. first_unresolved reg selected = Some bad
           \<and> start_metrics_monitoring reg selected n w = Returned w'
           \<and> (\<exists>es. trace w' = trace w @ es \<and> list_all outside_loop es)))"
proof (intro conjI impI)
  show "parse_metrics input max_metrics
       = take max_metrics (map strip (filter (\<lambda>seg. seg \<noteq> []) (split_commas input)))"
    by (rule parse_metrics_segments)
  show "parse_metrics '',,cpu,'' MAX_METRICS = [''cpu'']"
    by (simp add: parse_metrics_segments MAX_METRICS_def is_comma_def strip_def isspace_def)
next
  assume a: "seg \<noteq> [] \<and> list_all isspace seg"
  then show "strip seg = []" by (simp add: strip_blank)
  from a show "parse_metrics seg (Suc k) = [[]]" by (simp add: blank_segment_token)
next
  assume a: "[] \<in> set selected \<and> [] \<notin> name ` set reg"
  then have "lookup_metric reg [] = NULL" by (simp add: lookup_metric_absent)
  then obtain bad where b: "first_unresolved reg selected = Some bad"
    using a first_unresolved_ex [of "[]" selected reg] by blast
  then show "\<exists>bad w'. first_unresolved reg selected = Some bad
           \<and> start_metrics_monitoring reg selected n w = Returned w'
           \<and> (\<exists>es. trace w' = trace w @ es \<and> list_all outside_loop es)"
    using fail_closed [OF b, of n w] by blast
qed

text \<open>
  The payload \<open>"cpu, ,memory"\<close> parses to cpu, the empty name and memory, and the
  dispatch of these fails on the empty name.
\<close>

theorem C10_empty_and_blank_segments_witness:
  "parse_metrics '',,cpu,'' MAX_METRICS = [''cpu'']
   \<and> parse_metrics ''cpu, ,memory'' MAX_METRICS = [''cpu'', [], ''memory'']
   \<and> list_all isspace ''  '' \<and> parse_metrics ''  '' (Suc 9) = [[]]
   \<and> [] \<in> set [''cpu'', [], ''memory''] \<and> [] \<notin> name ` set demo_registry
   \<and> first_unresolved demo_registry [''cpu'', [], ''memory''] = Some []
   \<and> start_metrics_monitoring demo_registry [''cpu'', [], ''memory''] 2 (boot_world []) =
       Returned ((boot_world [])\<lparr>
         status_file := Some (''Error: No update function found for metric ''
                                @ [CHR 0x27, CHR 0x27, CHR 0x0A]),
         exposition_running := True,
         trace := [InitMetrics [''cpu'', [], ''memory''], PthreadCreate True,
                   Stdout (''Processing metric: '' @ [CHR 0x27] @ ''cpu'' @ [CHR 0x27, CHR 0x0A]),
                   Stdout (''Processing metric: '' @ [CHR 0x27, CHR 0x27, CHR 0x0A]),
                   Stderr (''Error: No update function found for metric ''
                                @ [CHR 0x27, CHR 0x27, CHR 0x0A]),
                   Stderr (''Error: No update function found for metric ''
                                @ [CHR 0x27, CHR 0x27, CHR 0x0A])]\<rparr>)"
proof -
  note t = C10_empty_and_blank_segments [where input = "''cpu, ,memory''"
      and max_metrics = MAX_METRICS and seg = "''  ''" and k = 9
      and selected = "[''cpu'', [], ''memory'']" and reg = demo_registry and n = 2
      and w = "boot_world []"]
  have p0: "parse_metrics '',,cpu,'' MAX_METRICS = [''cpu'']"
    using t by (rule conjunct1)
  have "parse_metrics ''cpu, ,memory'' MAX_METRICS
        = take MAX_METRICS (map strip (filter (\<lambda>seg. seg \<noteq> []) (split_commas ''cpu, ,memory'')))"
    using t by (elim conjE)
  then have p: "parse_metrics ''cpu, ,memory'' MAX_METRICS = [''cpu'', [], ''memory'']"
    by (simp add: MAX_METRICS_def is_comma_def strip_def isspace_def)
  have b: "list_all isspace ''  ''" by (simp add: isspace_def)
  have h1: "''  '' \<noteq> [] \<and> list_all isspace ''  ''" using b by simp
  have "''  '' \<noteq> [] \<and> list_all isspace ''  ''
          \<longrightarrow> strip ''  '' = [] \<and> parse_metrics ''  '' (Suc 9) = [[]]"
    using t by (elim conjE)
  then have "strip ''  '' = [] \<and> parse_metrics ''  '' (Suc 9) = [[]]"
    using h1 by (rule mp)
  then have b2: "parse_metrics ''  '' (Suc 9) = [[]]" by (rule conjunct2)
  have m1: "[] \<in> set [''cpu'', [], ''memory'']" by simp
  have m2: "[] \<notin> name ` set demo_registry" by (simp add: demo_registry_def)
  have f: "first_unresolved demo_registry [''cpu'', [], ''memory''] = Some []"
    by (simp add: first_unresolved_def demo_registry_def)
  have r: "start_metrics_monitoring demo_registry [''cpu'', [], ''memory''] 2 (boot_world []) =
       Returned ((boot_world [])\<lparr>
         status_file := Some (''Error: No update function found for metric ''
                                @ [CHR 0x27, CHR 0x27, CHR 0x0A]),
         exposition_running := True,
         trace := [InitMetrics [''cpu'', [], ''memory''], PthreadCreate True,
                   Stdout (''Processing metric: '' @ [CHR 0x27] @ ''cpu'' @ [CHR 0x27, CHR 0x0A]),
                   Stdout (''Processing metric: '' @ [CHR 0x27, CHR 0x27, CHR 0x0A]),
                   Stderr (''Error: No update function found for metric ''
                                @ [CHR 0x27, CHR 0x27, CHR 0x0A]),
                   Stderr (''Error: No update function found for metric ''
                                @ [CHR 0x27, CHR 0x27, CHR 0x0A])]\<rparr>)"
    by (simp add: start_metrics_monitoring_def demo_registry_def
          boot_world_def init_metrics_def create_threads_def update_status_eq fprintf_stderr_def
          printf_def emit_def processing_line_def no_update_function_def snprintf_def
          BUFFER_SIZE_def)
  show ?thesis
    by (intro conjI p0 p b b2 m1 m2 f r)
qed

end
